theory Spec2Isabelle
  imports Main
begin

section \<open>Shared types\<close>

text \<open>
  Identifiers are UUIDs held as strings (the TypeScript passes \<open>pollId: string\<close>), and a
  \<open>timestamptz\<close> is a point on an integer time line. A character of a string is a code
  unit below 256.
\<close>

type_synonym uuid = string
type_synonym timestamptz = int

section \<open>The server action \<open>submitVote\<close> (TypeScript) over the README schema\<close>

subsection \<open>Tables\<close>

text \<open>
  \<open>public.polls\<close> and \<open>public.votes\<close> as the README creates them. The generated key
  \<open>votes.id\<close> is left out: \<open>submitVote\<close> reads it only to see whether a row exists.
  \<open>tp_options\<close> is what the client delivers for the column \<open>options\<close>: \<open>Some xs\<close> for
  an array, \<open>None\<close> for any value on which \<open>Array.isArray\<close> is false.
\<close>

record polls_row =
  tp_id :: uuid
  tp_user_id :: uuid
  tp_question :: string
  tp_options :: "string list option"
  tp_created_at :: timestamptz

record votes_row =
  tv_poll_id :: uuid
  tv_user_id :: uuid
  tv_option_index :: int
  tv_created_at :: timestamptz

text \<open>
  The state a call can touch: the two tables and the paths handed to
  \<open>revalidatePath\<close>.
\<close>

record store =
  polls :: "polls_row list"
  votes :: "votes_row list"
  revalidated :: "string list"

subsection \<open>What the environment answers\<close>

text \<open>
  \<open>auth_getUser\<close> is the answer of \<open>supabase.auth.getUser()\<close>: \<open>Inl m\<close> when
  \<open>userErr\<close> is set (with message \<open>m\<close>), \<open>Inr user\<close> otherwise. The three faults are
  failures of the storage calls that do not come from the rows (connection loss, a
  timeout, a refused policy): \<open>Some m\<close> makes the call return an error with message
  \<open>m\<close>. \<open>now\<close> is the clock behind \<open>default now()\<close>.
\<close>

record env =
  auth_getUser :: "string + uuid option"
  polls_select_fault :: "string option"
  votes_select_fault :: "string option"
  votes_insert_fault :: "string option"
  now :: timestamptz

subsection \<open>Numbers and \<open>parseInt\<close>\<close>

text \<open>
  A JavaScript number is either an integer value or something on which
  \<open>Number.isInteger\<close> is false (\<open>NaN\<close>, an infinity, a fraction). Integers beyond
  \<open>2^53\<close> are rounded by the double format; the code only compares the index with \<open>0\<close>
  and with an array length, which rounding cannot change, so the mathematical integer
  stands for the double. A digit string too large for a double reads as \<open>Infinity\<close>.
\<close>

datatype number = Integer int | NonInteger

datatype raw_index = RawNumber number | RawString string

definition isWhiteSpace :: "char \<Rightarrow> bool" where
  "isWhiteSpace c = ((of_char c :: nat) \<in> {9, 10, 11, 12, 13, 32, 160})"

definition isDigit :: "char \<Rightarrow> bool" where
  "isDigit c = (48 \<le> (of_char c :: nat) \<and> (of_char c :: nat) \<le> 57)"

definition digitVal :: "char \<Rightarrow> int" where
  "digitVal c = int (of_char c) - 48"

definition toNumber :: "int \<Rightarrow> number" where
  "toNumber n = (if \<bar>n\<bar> \<ge> 2 ^ 1024 - 2 ^ 970 then NonInteger else Integer n)"

text \<open>
  \<open>parseInt(s, 10)\<close>: leading white space is skipped, one sign is read, then the longest
  run of decimal digits; with no digit the result is \<open>NaN\<close>.
\<close>

definition parseInt :: "string \<Rightarrow> number" where
  "parseInt s =
     (let t = dropWhile isWhiteSpace s;
          sign = (if t \<noteq> [] \<and> hd t = CHR ''-'' then - 1 else 1);
          u = (if t \<noteq> [] \<and> (hd t = CHR ''-'' \<or> hd t = CHR ''+'') then tl t else t);
          z = takeWhile isDigit u
      in if z = [] then NonInteger
         else toNumber (sign * foldl (\<lambda>a c. 10 * a + digitVal c) 0 z))"

text \<open>\<open>typeof rawOptionIndex === "string" ? parseInt(rawOptionIndex, 10) : rawOptionIndex\<close>\<close>

definition coerce :: "raw_index \<Rightarrow> number" where
  "coerce rawOptionIndex =
     (case rawOptionIndex of RawString s \<Rightarrow> parseInt s | RawNumber n \<Rightarrow> n)"

subsection \<open>The test \<open>/duplicate key|unique/i\<close>\<close>

text \<open>
  Without the \<open>u\<close> flag, \<open>i\<close> folds case on ASCII letters only, so the test is a
  search for either word after lowering \<open>A\<close>..\<open>Z\<close>.
\<close>

definition toLower :: "char \<Rightarrow> char" where
  "toLower c =
     (if 65 \<le> (of_char c :: nat) \<and> (of_char c :: nat) \<le> 90
      then char_of ((of_char c :: nat) + 32) else c)"

fun occurs :: "string \<Rightarrow> string \<Rightarrow> bool" where
  "occurs pat [] = (pat = [])"
| "occurs pat (c # cs) = (take (length pat) (c # cs) = pat \<or> occurs pat cs)"

definition duplicate_or_unique :: "string \<Rightarrow> bool" where
  "duplicate_or_unique msg =
     (occurs ''duplicate key'' (map toLower msg) \<or> occurs ''unique'' (map toLower msg))"

subsection \<open>Storage calls\<close>

text \<open>
  PostgREST's \<open>.single()\<close> fails unless exactly one row matches, and
  \<open>.maybeSingle()\<close> fails when more than one does; both report the same message.
\<close>

definition PGRST116 :: string where
  "PGRST116 = ''JSON object requested, multiple (or no) rows returned''"

definition single :: "'a list \<Rightarrow> string + 'a" where
  "single rows = (case rows of [r] \<Rightarrow> Inr r | _ \<Rightarrow> Inl PGRST116)"

definition maybeSingle :: "'a list \<Rightarrow> string + 'a option" where
  "maybeSingle rows =
     (case rows of [] \<Rightarrow> Inr None | [r] \<Rightarrow> Inr (Some r) | _ \<Rightarrow> Inl PGRST116)"

text \<open>\<open>from("polls").select("id, options").eq("id", pollId).single()\<close>\<close>

definition select_poll :: "env \<Rightarrow> uuid \<Rightarrow> store \<Rightarrow> string + polls_row" where
  "select_poll e pollId s =
     (case polls_select_fault e of
        Some m \<Rightarrow> Inl m
      | None \<Rightarrow> single (filter (\<lambda>p. tp_id p = pollId) (polls s)))"

text \<open>
  \<open>from("votes").select("id").eq("poll_id", pollId).eq("user_id", user.id).maybeSingle()\<close>
\<close>

definition select_existing :: "env \<Rightarrow> uuid \<Rightarrow> uuid \<Rightarrow> store \<Rightarrow> string + votes_row option" where
  "select_existing e pollId user s =
     (case votes_select_fault e of
        Some m \<Rightarrow> Inl m
      | None \<Rightarrow>
          maybeSingle (filter (\<lambda>v. tv_poll_id v = pollId \<and> tv_user_id v = user) (votes s)))"

text \<open>
  The insert into \<open>votes\<close>, with the constraints of the README schema in the order
  PostgreSQL checks them: the check constraint \<open>votes_option_index_nonneg\<close>, the unique
  index \<open>votes_unique_user_per_poll\<close> on \<open>(poll_id, user_id)\<close>, the foreign key to
  \<open>polls\<close>. The messages are PostgreSQL's.
\<close>

definition check_violation :: string where
  "check_violation =
     ''new row for relation \"votes\" violates check constraint \"votes_option_index_nonneg\"''"

definition unique_violation :: string where
  "unique_violation =
     ''duplicate key value violates unique constraint \"votes_unique_user_per_poll\"''"

definition foreign_key_violation :: string where
  "foreign_key_violation =
     ''insert or update on table \"votes\" violates foreign key constraint \"votes_poll_id_fkey\"''"

definition insert_vote :: "env \<Rightarrow> votes_row \<Rightarrow> store \<Rightarrow> string + store" where
  "insert_vote e r s =
     (case votes_insert_fault e of
        Some m \<Rightarrow> Inl m
      | None \<Rightarrow>
          if tv_option_index r < 0 then Inl check_violation
          else if filter (\<lambda>v. tv_poll_id v = tv_poll_id r \<and> tv_user_id v = tv_user_id r) (votes s) \<noteq> []
            then Inl unique_violation
          else if filter (\<lambda>p. tp_id p = tv_poll_id r) (polls s) = []
            then Inl foreign_key_violation
          else Inr (s\<lparr>votes := votes s @ [r]\<rparr>))"

subsection \<open>\<open>submitVote\<close>\<close>

text \<open>
  The action awaits the storage between its duplicate check and its insert, so it is
  written as the two halves that each run against the store as it is at that moment:
  \<open>submitVote_check\<close> is everything up to \<open>if (existing) return ...\<close> (it only reads),
  \<open>submitVote_insert\<close> is the insert and what follows. Alone on the store, the action is
  their composition \<open>submitVote\<close>. The result is the field \<open>error\<close> of the returned
  object (\<open>None\<close> for \<open>null\<close>).
\<close>

definition submitVote_check :: "env \<Rightarrow> uuid \<Rightarrow> raw_index \<Rightarrow> store \<Rightarrow> string + (uuid \<times> int)" where
  "submitVote_check e pollId rawOptionIndex s =
     (case auth_getUser e of
        Inl userErr \<Rightarrow> Inl userErr
      | Inr None \<Rightarrow> Inl ''You must be logged in to vote.''
      | Inr (Some user) \<Rightarrow>
          (case coerce rawOptionIndex of
             NonInteger \<Rightarrow> Inl ''Invalid option.''
           | Integer optionIndex \<Rightarrow>
               (case select_poll e pollId s of
                  Inl pollErr \<Rightarrow> Inl pollErr
                | Inr poll \<Rightarrow>
                    (case tp_options poll of
                       None \<Rightarrow> Inl ''Invalid option.''
                     | Some opts \<Rightarrow>
                         if optionIndex < 0 \<or> optionIndex \<ge> int (length opts)
                         then Inl ''Invalid option.''
                         else
                           (case select_existing e pollId user s of
                              Inl checkErr \<Rightarrow> Inl checkErr
                            | Inr (Some existing) \<Rightarrow> Inl ''You have already voted in this poll.''
                            | Inr None \<Rightarrow> Inr (user, optionIndex))))))"

definition submitVote_insert :: "env \<Rightarrow> uuid \<Rightarrow> uuid \<times> int \<Rightarrow> store \<Rightarrow> string option \<times> store" where
  "submitVote_insert e pollId checked s =
     (case insert_vote e
             \<lparr>tv_poll_id = pollId, tv_user_id = fst checked,
              tv_option_index = snd checked, tv_created_at = now e\<rparr> s of
        Inl message \<Rightarrow>
          (let msg = (if message = [] then ''Failed to submit vote'' else message)
           in if duplicate_or_unique msg
              then (Some ''You have already voted in this poll.'', s)
              else (Some msg, s))
      | Inr s' \<Rightarrow> (None, s'\<lparr>revalidated := revalidated s' @ [''/polls/'' @ pollId]\<rparr>))"

definition submitVote :: "env \<Rightarrow> uuid \<Rightarrow> raw_index \<Rightarrow> store \<Rightarrow> string option \<times> store" where
  "submitVote e pollId rawOptionIndex s =
     (case submitVote_check e pollId rawOptionIndex s of
        Inl err \<Rightarrow> (Some err, s)
      | Inr checked \<Rightarrow> submitVote_insert e pollId checked s)"

text \<open>The pair the unique index \<open>votes_unique_user_per_poll\<close> is on.\<close>

definition vote_key :: "votes_row \<Rightarrow> uuid \<times> uuid" where
  "vote_key v = (tv_poll_id v, tv_user_id v)"

text \<open>
  The states the vote ledger can reach from an empty ledger. Besides whole calls
  (\<open>call\<close>), the insert half may run for any checked pair against whatever the store
  has become (\<open>racing\<close>): that is every interleaving of concurrent calls, since the
  first half only reads.
\<close>

inductive reachable :: "store \<Rightarrow> bool" where
  init: "votes s = [] \<Longrightarrow> reachable s"
| call: "reachable s \<Longrightarrow> reachable (snd (submitVote e pollId rawOptionIndex s))"
| racing: "reachable s \<Longrightarrow> reachable (snd (submitVote_insert e pollId checked s))"

section \<open>The database functions of \<open>schema.sql\<close>\<close>

subsection \<open>Tables\<close>

text \<open>
  A nullable column is an \<open>option\<close>. Of \<open>public.profiles\<close> only the key is kept (the
  functions read no other column); generated keys of \<open>votes\<close> are left out as above.
\<close>

datatype poll_status = active | closed | draft

record poll =
  p_id :: uuid
  p_creator_id :: uuid
  p_question :: string
  p_description :: "string option"
  p_status :: "poll_status option"
  p_is_public :: "bool option"
  p_allow_multiple_votes :: "bool option"
  p_expires_at :: "timestamptz option"
  p_created_at :: "timestamptz option"
  p_updated_at :: "timestamptz option"

record poll_option =
  o_id :: uuid
  o_poll_id :: uuid
  o_option_text :: string
  o_display_order :: int
  o_created_at :: "timestamptz option"
  o_updated_at :: "timestamptz option"

record vote =
  v_poll_id :: uuid
  v_option_id :: uuid
  v_voter_id :: uuid
  v_created_at :: "timestamptz option"

record database =
  db_profiles :: "uuid list"
  db_polls :: "poll list"
  db_poll_options :: "poll_option list"
  db_votes :: "vote list"

subsection \<open>\<open>record_vote\<close>\<close>

text \<open>
  The PL/pgSQL function, run at transaction time \<open>now\<close>. An exception aborts the
  transaction: the result is \<open>Inl\<close> the message and the database as it was. \<open>IF\<close> on
  a null condition takes the \<open>ELSE\<close> path, so a null \<open>status\<close> passes the status test
  and a null \<open>allow_multiple_votes\<close> is single choice. The insert can still fail on the
  foreign key \<open>voter_id \<rightarrow> profiles(id)\<close>; the other two foreign keys hold by the tests
  before it.

  \<open>schema.sql\<close> writes every string literal with tripled quotes. In SQL a doubled quote
  inside a literal is one apostrophe, so the literal of \<open>RAISE EXCEPTION\<close> at line 259
  denotes the text \<open>Poll is not active\<close> between two apostrophes, and that is the message
  raised. (The labels of \<open>poll_status\<close> carry the apostrophes in the same way, in the
  type and in every comparison alike; the datatype \<open>poll_status\<close> names the three
  labels.)
\<close>

definition apostrophes :: "string \<Rightarrow> string" where
  "apostrophes s = CHR 0x27 # s @ [CHR 0x27]"

definition votes_voter_id_fkey :: string where
  "votes_voter_id_fkey =
     ''insert or update on table \"votes\" violates foreign key constraint \"votes_voter_id_fkey\"''"

definition votes_unique_key :: string where
  "votes_unique_key =
     ''duplicate key value violates unique constraint \"votes_poll_id_voter_id_option_id_key\"''"

text \<open>
  \<open>INSERT INTO public.votes (poll_id, option_id, voter_id) VALUES (...)\<close>; with
  \<open>on_conflict_do_nothing\<close> a row with the same \<open>(poll_id, voter_id, option_id)\<close> makes
  the statement insert nothing instead of failing.
\<close>

definition insert_into_votes :: "bool \<Rightarrow> vote \<Rightarrow> database \<Rightarrow> string + database" where
  "insert_into_votes on_conflict_do_nothing r db =
     (if filter (\<lambda>v. v_poll_id v = v_poll_id r \<and> v_voter_id v = v_voter_id r
                       \<and> v_option_id v = v_option_id r) (db_votes db) \<noteq> []
      then (if on_conflict_do_nothing then Inr db else Inl votes_unique_key)
      else if v_voter_id r \<notin> set (db_profiles db) then Inl votes_voter_id_fkey
      else Inr (db\<lparr>db_votes := db_votes db @ [r]\<rparr>))"

text \<open>\<open>SELECT * INTO poll_record FROM public.polls WHERE id = poll_uuid\<close>, with \<open>FOUND\<close>.\<close>

definition select_into_poll_record :: "uuid \<Rightarrow> database \<Rightarrow> poll option" where
  "select_into_poll_record poll_uuid db =
     (case filter (\<lambda>p. p_id p = poll_uuid) (db_polls db) of
        [] \<Rightarrow> None
      | poll_record # _ \<Rightarrow> Some poll_record)"

text \<open>
  \<open>EXISTS (SELECT 1 FROM public.poll_options WHERE id = option_uuid AND poll_id =
  poll_uuid)\<close>
\<close>

definition option_in_poll :: "uuid \<Rightarrow> uuid \<Rightarrow> database \<Rightarrow> bool" where
  "option_in_poll option_uuid poll_uuid db =
     (filter (\<lambda>po. o_id po = option_uuid \<and> o_poll_id po = poll_uuid) (db_poll_options db) \<noteq> [])"

definition record_vote ::
  "timestamptz \<Rightarrow> uuid \<Rightarrow> uuid \<Rightarrow> uuid \<Rightarrow> database \<Rightarrow> (string + bool) \<times> database" where
  "record_vote now_t poll_uuid option_uuid voter_uuid db =
     (case select_into_poll_record poll_uuid db of
        None \<Rightarrow> (Inl (apostrophes ''Poll not found''), db)
      | Some poll_record \<Rightarrow>
          if (case p_status poll_record of None \<Rightarrow> False | Some st \<Rightarrow> st \<noteq> active)
          then (Inl (apostrophes ''Poll is not active''), db)
          else if \<not> option_in_poll option_uuid poll_uuid db
          then (Inl (apostrophes ''Invalid option for this poll''), db)
          else
            (let new_row = \<lparr>v_poll_id = poll_uuid, v_option_id = option_uuid,
                            v_voter_id = voter_uuid, v_created_at = Some now_t\<rparr>
             in if p_allow_multiple_votes poll_record = Some True
                then (case insert_into_votes True new_row db of
                        Inl m \<Rightarrow> (Inl m, db)
                      | Inr db' \<Rightarrow> (Inr True, db'))
                else (case insert_into_votes False new_row
                             (db\<lparr>db_votes :=
                                   filter (\<lambda>v. \<not> (v_poll_id v = poll_uuid \<and> v_voter_id v = voter_uuid))
                                     (db_votes db)\<rparr>) of
                        Inl m \<Rightarrow> (Inl m, db)
                      | Inr db' \<Rightarrow> (Inr True, db'))))"

text \<open>
  A voter's calls on one poll, one after the other; each request is the time of the call
  and the option asked for. The results are kept in call order.
\<close>

fun record_votes ::
  "uuid \<Rightarrow> uuid \<Rightarrow> (timestamptz \<times> uuid) list \<Rightarrow> database \<Rightarrow> (string + bool) list \<times> database" where
  "record_votes poll_uuid voter_uuid [] db = ([], db)"
| "record_votes poll_uuid voter_uuid (req # reqs) db =
     (let (r, db') = record_vote (fst req) poll_uuid (snd req) voter_uuid db;
          (rs, db'') = record_votes poll_uuid voter_uuid reqs db'
      in (r # rs, db''))"

text \<open>The rows a voter holds on a poll, and the triple the unique constraint is on.\<close>

definition vote_triple :: "vote \<Rightarrow> uuid \<times> uuid \<times> uuid" where
  "vote_triple v = (v_poll_id v, v_voter_id v, v_option_id v)"

definition votes_of :: "uuid \<Rightarrow> uuid \<Rightarrow> database \<Rightarrow> vote list" where
  "votes_of poll_uuid voter_uuid db =
     filter (\<lambda>v. v_poll_id v = poll_uuid \<and> v_voter_id v = voter_uuid) (db_votes db)"

text \<open>
  The databases \<open>record_vote\<close> can produce: it starts with no votes and with the primary
  key of \<open>poll_options\<close> in force, and every vote comes from a call.
\<close>

inductive reachable_db :: "database \<Rightarrow> bool" where
  db_init: "db_votes db = [] \<Longrightarrow> distinct (map o_id (db_poll_options db)) \<Longrightarrow> reachable_db db"
| db_call: "reachable_db db \<Longrightarrow>
     reachable_db (snd (record_vote now_t poll_uuid option_uuid voter_uuid db))"

subsection \<open>\<open>get_poll_with_options\<close>\<close>

text \<open>
  The subquery \<open>SELECT option_id, COUNT(*) FROM votes WHERE poll_id = p.id GROUP BY
  option_id\<close>: one row per option that has a vote.
\<close>

definition vote_counts :: "database \<Rightarrow> uuid \<Rightarrow> (uuid \<times> nat) list" where
  "vote_counts db pid =
     (let vs = filter (\<lambda>v. v_poll_id v = pid) (db_votes db)
      in map (\<lambda>oid. (oid, length (filter (\<lambda>v. v_option_id v = oid) vs)))
           (remdups (map v_option_id vs)))"

record option_json =
  j_id :: uuid
  j_option_text :: string
  j_display_order :: int
  j_vote_count :: nat

record poll_with_options =
  r_poll_id :: uuid
  r_question :: string
  r_description :: "string option"
  r_status :: "poll_status option"
  r_is_public :: "bool option"
  r_allow_multiple_votes :: "bool option"
  r_expires_at :: "timestamptz option"
  r_created_at :: "timestamptz option"
  r_creator_id :: uuid
  r_options :: "option_json list"
  r_total_votes :: nat

text \<open>
  The query of \<open>RETURN QUERY\<close>, with every column read from the table it is written
  against. The left join gives an option the count of its group, or null (read as \<open>0\<close>
  by \<open>COALESCE\<close>) when it has none; \<open>json_agg\<close> lists the options by
  \<open>display_order\<close>.
\<close>

definition poll_with_options_query :: "uuid \<Rightarrow> database \<Rightarrow> poll_with_options list" where
  "poll_with_options_query poll_uuid db =
     map (\<lambda>p.
       \<lparr>r_poll_id = p_id p, r_question = p_question p, r_description = p_description p,
        r_status = p_status p, r_is_public = p_is_public p,
        r_allow_multiple_votes = p_allow_multiple_votes p, r_expires_at = p_expires_at p,
        r_created_at = p_created_at p, r_creator_id = p_creator_id p,
        r_options =
          map (\<lambda>po.
            \<lparr>j_id = o_id po, j_option_text = o_option_text po,
             j_display_order = o_display_order po,
             j_vote_count = (case map_of (vote_counts db (p_id p)) (o_id po) of
                               None \<Rightarrow> 0 | Some n \<Rightarrow> n)\<rparr>)
            (sort_key o_display_order
               (filter (\<lambda>po. o_poll_id po = p_id p) (db_poll_options db))),
        r_total_votes = length (filter (\<lambda>v. v_poll_id v = p_id p) (db_votes db))\<rparr>)
       (filter (\<lambda>p. p_id p = poll_uuid) (db_polls db))"

text \<open>
  \<open>RETURNS TABLE (poll_id UUID, question TEXT, ...)\<close> makes each output column a
  variable of the function body, beside the parameter \<open>poll_uuid\<close>. When PL/pgSQL
  prepares a statement of the body, a column reference written without a qualifier
  that names a column of the table it is read from and also names one of these variables
  is refused (\<open>plpgsql.variable_conflict = error\<close>, the default; the function sets no
  other), and the statement raises. The query reads \<open>public.votes\<close> through four
  unqualified references: \<open>option_id\<close> (line 196), \<open>poll_id\<close> (line 198),
  \<open>option_id\<close> (line 199) and \<open>poll_id\<close> (line 204); every other reference is
  qualified (\<open>p.id\<close>, \<open>po.poll_id\<close>, \<open>vote_counts.option_id\<close>).
\<close>

definition get_poll_with_options_variables :: "string list" where
  "get_poll_with_options_variables =
     [''poll_uuid'', ''poll_id'', ''question'', ''description'', ''status'', ''is_public'',
      ''allow_multiple_votes'', ''expires_at'', ''created_at'', ''creator_id'', ''options'',
      ''total_votes'']"

definition votes_columns :: "string list" where
  "votes_columns = [''id'', ''poll_id'', ''option_id'', ''voter_id'', ''created_at'']"

definition votes_references :: "string list" where
  "votes_references = [''option_id'', ''poll_id'', ''option_id'', ''poll_id'']"

definition ambiguous_column :: "string \<Rightarrow> string" where
  "ambiguous_column c = ''column reference \"'' @ c @ ''\" is ambiguous''"

definition get_poll_with_options :: "uuid \<Rightarrow> database \<Rightarrow> string + poll_with_options list" where
  "get_poll_with_options poll_uuid db =
     (case List.find (\<lambda>c. c \<in> set votes_columns \<and> c \<in> set get_poll_with_options_variables)
             votes_references of
        Some c \<Rightarrow> Inl (ambiguous_column c)
      | None \<Rightarrow> Inr (poll_with_options_query poll_uuid db))"

section \<open>Example states\<close>

text \<open>
  A poll with two options, owned by \<open>bob\<close>; \<open>alice\<close> is signed in and no storage call
  fails. \<open>voted_store\<close> is the store after \<open>alice\<close> has voted for option \<open>0\<close>.
\<close>

definition alice_env :: env where
  "alice_env =
     \<lparr>auth_getUser = Inr (Some ''alice''), polls_select_fault = None,
      votes_select_fault = None, votes_insert_fault = None, now = 100\<rparr>"

definition lunch_store :: store where
  "lunch_store =
     \<lparr>polls = [\<lparr>tp_id = ''p1'', tp_user_id = ''bob'', tp_question = ''Lunch?'',
                 tp_options = Some [''Pizza'', ''Sushi''], tp_created_at = 0\<rparr>],
      votes = [], revalidated = []\<rparr>"

definition voted_store :: store where
  "voted_store =
     \<lparr>polls = [\<lparr>tp_id = ''p1'', tp_user_id = ''bob'', tp_question = ''Lunch?'',
                 tp_options = Some [''Pizza'', ''Sushi''], tp_created_at = 0\<rparr>],
      votes = [\<lparr>tv_poll_id = ''p1'', tv_user_id = ''alice'', tv_option_index = 0,
                 tv_created_at = 100\<rparr>],
      revalidated = [''/polls/p1'']\<rparr>"

text \<open>
  The same poll in the schema of \<open>schema.sql\<close>, with its status, its mode
  (\<open>allow_multiple_votes\<close>) and its expiry left open; \<open>x1\<close> is an option of another
  poll.
\<close>

definition lunch_db :: "poll_status \<Rightarrow> bool \<Rightarrow> timestamptz option \<Rightarrow> database" where
  "lunch_db st multiple expires =
     \<lparr>db_profiles = [''alice'', ''bob''],
      db_polls = [\<lparr>p_id = ''p1'', p_creator_id = ''bob'', p_question = ''Lunch?'',
                    p_description = None, p_status = Some st, p_is_public = Some True,
                    p_allow_multiple_votes = Some multiple, p_expires_at = expires,
                    p_created_at = Some 0, p_updated_at = Some 0\<rparr>],
      db_poll_options =
        [\<lparr>o_id = ''o1'', o_poll_id = ''p1'', o_option_text = ''Pizza'', o_display_order = 1,
          o_created_at = Some 0, o_updated_at = Some 0\<rparr>,
         \<lparr>o_id = ''o2'', o_poll_id = ''p1'', o_option_text = ''Sushi'', o_display_order = 2,
          o_created_at = Some 0, o_updated_at = Some 0\<rparr>,
         \<lparr>o_id = ''x1'', o_poll_id = ''p2'', o_option_text = ''Tea'', o_display_order = 1,
          o_created_at = Some 0, o_updated_at = Some 0\<rparr>],
      db_votes = []\<rparr>"

text \<open>The multiple-choice poll after \<open>alice\<close> has voted for \<open>o1\<close> at time \<open>100\<close>.\<close>

definition voted_db :: database where
  "voted_db =
     (lunch_db active True None)
       \<lparr>db_votes := [\<lparr>v_poll_id = ''p1'', v_option_id = ''o1'', v_voter_id = ''alice'',
                      v_created_at = Some 100\<rparr>]\<rparr>"

section \<open>Properties\<close>

subsection \<open>Evaluation on the examples\<close>

lemmas ts_defs = submitVote_def submitVote_check_def submitVote_insert_def coerce_def
  select_poll_def select_existing_def insert_vote_def single_def maybeSingle_def
  alice_env_def lunch_store_def voted_store_def

lemmas parse_defs = parseInt_def isWhiteSpace_def isDigit_def digitVal_def toNumber_def

lemmas sql_defs = record_vote_def select_into_poll_record_def option_in_poll_def
  insert_into_votes_def lunch_db_def voted_db_def Let_def

lemma first_vote:
  "submitVote alice_env ''p1'' (RawNumber (Integer 0)) lunch_store = (None, voted_store)"
  by (simp add: ts_defs)

lemma check_passes_before_vote:
  "submitVote_check alice_env ''p1'' (RawString ''0'') lunch_store = Inr (''alice'', 0)"
  by (simp add: ts_defs parse_defs)

lemma select_poll_voted_store:
  "select_poll alice_env ''p1'' voted_store =
     Inr \<lparr>tp_id = ''p1'', tp_user_id = ''bob'', tp_question = ''Lunch?'',
          tp_options = Some [''Pizza'', ''Sushi''], tp_created_at = 0\<rparr>"
  by (simp add: ts_defs)

lemma first_record_vote:
  "record_vote 100 ''p1'' ''o1'' ''alice'' (lunch_db active True None) = (Inr True, voted_db)"
  by (simp add: sql_defs)

lemma select_lunch_poll:
  "select_into_poll_record ''p1'' (lunch_db st multiple expires) =
     Some \<lparr>p_id = ''p1'', p_creator_id = ''bob'', p_question = ''Lunch?'',
           p_description = None, p_status = Some st, p_is_public = Some True,
           p_allow_multiple_votes = Some multiple, p_expires_at = expires,
           p_created_at = Some 0, p_updated_at = Some 0\<rparr>"
  by (simp add: sql_defs)

lemma unique_violation_matches: "duplicate_or_unique unique_violation"
  by (simp add: duplicate_or_unique_def unique_violation_def toLower_def)

subsection \<open>\<open>submitVote\<close>: errors leave the store alone\<close>

lemma filter_eq_singletonD: "filter P xs = [x] \<Longrightarrow> x \<in> set xs \<and> P x"
proof -
  assume "filter P xs = [x]"
  then have "x \<in> set (filter P xs)" by simp
  then show ?thesis by simp
qed

lemma submitVote_insert_error_unchanged:
  "fst (submitVote_insert e pollId checked s) = Some err \<Longrightarrow>
     snd (submitVote_insert e pollId checked s) = s"
  by (auto simp: submitVote_insert_def Let_def split: sum.splits if_splits)

lemma submitVote_error_unchanged:
  "fst (submitVote e pollId raw s) = Some err \<Longrightarrow> snd (submitVote e pollId raw s) = s"
  by (auto simp: submitVote_def submitVote_insert_error_unchanged split: sum.splits)

lemma submitVote_check_passed:
  "submitVote_check e pollId raw s = Inr checked \<Longrightarrow>
     auth_getUser e = Inr (Some (fst checked)) \<and> coerce raw = Integer (snd checked)
     \<and> 0 \<le> snd checked"
  by (auto simp: submitVote_check_def split: sum.splits option.splits number.splits if_splits)

subsection \<open>The unique index\<close>

lemma insert_vote_votes:
  "insert_vote e r s = Inr s' \<Longrightarrow>
     s' = s\<lparr>votes := votes s @ [r]\<rparr> \<and> vote_key r \<notin> vote_key ` set (votes s)
     \<and> 0 \<le> tv_option_index r"
  by (auto simp: insert_vote_def vote_key_def filter_empty_conv split: option.splits if_splits)

lemma submitVote_insert_votes:
  "votes (snd (submitVote_insert e pollId checked s)) = votes s \<or>
   (\<exists>r. votes (snd (submitVote_insert e pollId checked s)) = votes s @ [r]
        \<and> vote_key r \<notin> vote_key ` set (votes s) \<and> 0 \<le> tv_option_index r)"
  by (auto simp: submitVote_insert_def Let_def split: sum.splits dest!: insert_vote_votes)

lemma submitVote_votes:
  "votes (snd (submitVote e pollId raw s)) = votes s \<or>
   (\<exists>r. votes (snd (submitVote e pollId raw s)) = votes s @ [r]
        \<and> vote_key r \<notin> vote_key ` set (votes s) \<and> 0 \<le> tv_option_index r)"
  using submitVote_insert_votes by (auto simp: submitVote_def split: sum.splits)

lemma reachable_invariant:
  "reachable s \<Longrightarrow>
     distinct (map vote_key (votes s)) \<and> (\<forall>v\<in>set (votes s). 0 \<le> tv_option_index v)"
proof (induction rule: reachable.induct)
  case (init s)
  then show ?case by simp
next
  case (call s e pollId raw)
  then show ?case using submitVote_votes [of e pollId raw s] by auto
next
  case (racing s e pollId checked)
  then show ?case using submitVote_insert_votes [of e pollId checked s] by auto
qed

lemma distinct_key_triple:
  "distinct (map vote_key vs) \<Longrightarrow>
     distinct (map (\<lambda>v. (tv_poll_id v, tv_user_id v, tv_option_index v)) vs)"
  by (induction vs) (auto simp: vote_key_def)

lemma distinct_keys_filter_single:
  "distinct (map vote_key vs) \<Longrightarrow> v \<in> set vs \<Longrightarrow> tv_poll_id v = p \<Longrightarrow> tv_user_id v = u \<Longrightarrow>
   filter (\<lambda>v. tv_poll_id v = p \<and> tv_user_id v = u) vs = [v]"
proof (induction vs)
  case Nil
  then show ?case by simp
next
  case (Cons a vs)
  show ?case
  proof (cases "a = v")
    case True
    have "filter (\<lambda>v. tv_poll_id v = p \<and> tv_user_id v = u) vs = []"
      using Cons.prems True by (auto simp: filter_empty_conv vote_key_def image_iff)
    then show ?thesis using True Cons.prems by simp
  next
    case False
    then have "v \<in> set vs" using Cons.prems by simp
    moreover have "\<not> (tv_poll_id a = p \<and> tv_user_id a = u)"
      using Cons.prems \<open>v \<in> set vs\<close> by (auto simp: vote_key_def image_iff)
    ultimately show ?thesis using Cons by simp
  qed
qed

lemma reachable_voted_store: "reachable voted_store"
proof -
  have "reachable lunch_store"
    by (rule reachable.init) (simp add: lunch_store_def)
  then have "reachable (snd (submitVote alice_env ''p1'' (RawNumber (Integer 0)) lunch_store))"
    by (rule reachable.call)
  then show ?thesis by (simp add: first_vote)
qed

subsection \<open>\<open>submitVote\<close> when the voter already holds a vote\<close>

lemma submitVote_holding:
  assumes "auth_getUser e = Inr (Some u)"
    and "filter (\<lambda>v. tv_poll_id v = pollId \<and> tv_user_id v = u) (votes s) = [v]"
  shows "\<exists>err. submitVote e pollId raw s = (Some err, s)"
  using assms
  by (auto simp: submitVote_def submitVote_check_def select_existing_def maybeSingle_def
      split: sum.splits option.splits number.splits)

lemma submitVote_already_voted:
  assumes "auth_getUser e = Inr (Some u)"
    and "coerce raw = Integer i"
    and "select_poll e pollId s = Inr poll"
    and "tp_options poll = Some opts"
    and "0 \<le> i" and "i < int (length opts)"
    and "votes_select_fault e = None"
    and "filter (\<lambda>v. tv_poll_id v = pollId \<and> tv_user_id v = u) (votes s) = [v]"
  shows "submitVote e pollId raw s = (Some ''You have already voted in this poll.'', s)"
  using assms
  by (simp add: submitVote_def submitVote_check_def select_existing_def maybeSingle_def)

text \<open>
  C1, as the code has it. A voter who holds a vote for an option and submits the same
  option again (signed in, the poll readable and the option within its bounds, the
  duplicate check answered) gets the error \<open>You have already voted in this poll.\<close>, not a
  success; the store is left as it was.
\<close>

theorem submitVote_same_option_again:
  assumes "reachable s"
    and "auth_getUser e = Inr (Some voter)"
    and "v \<in> set (votes s)" and "tv_poll_id v = pollId" and "tv_user_id v = voter"
    and "coerce rawOptionIndex = Integer (tv_option_index v)"
    and "select_poll e pollId s = Inr poll" and "tp_options poll = Some opts"
    and "tv_option_index v < int (length opts)"
    and "votes_select_fault e = None"
  shows "submitVote e pollId rawOptionIndex s =
           (Some ''You have already voted in this poll.'', s)"
proof -
  have held: "filter (\<lambda>x. tv_poll_id x = pollId \<and> tv_user_id x = voter) (votes s) = [v]"
    using reachable_invariant [OF assms(1)] assms(3-5)
    by (intro distinct_keys_filter_single) simp_all
  have "0 \<le> tv_option_index v"
    using reachable_invariant [OF assms(1)] assms(3) by simp
  then show ?thesis
    using submitVote_already_voted [OF assms(2,6,7,8) _ assms(9,10) held] by simp
qed

theorem submitVote_same_option_again_witness:
  "reachable voted_store \<and>
   \<lparr>tv_poll_id = ''p1'', tv_user_id = ''alice'', tv_option_index = 0, tv_created_at = 100\<rparr>
     \<in> set (votes voted_store) \<and>
   coerce (RawString ''0'') = Integer 0 \<and>
   submitVote alice_env ''p1'' (RawString ''0'') voted_store =
     (Some ''You have already voted in this poll.'', voted_store)"
proof -
  let ?v = "\<lparr>tv_poll_id = ''p1'', tv_user_id = ''alice'', tv_option_index = 0,
             tv_created_at = 100\<rparr>"
  have h3: "?v \<in> set (votes voted_store)" by (simp add: voted_store_def)
  have h6: "coerce (RawString ''0'') = Integer (tv_option_index ?v)"
    by (simp add: coerce_def parse_defs)
  have h2: "auth_getUser alice_env = Inr (Some ''alice'')" by (simp add: alice_env_def)
  have h8: "tp_options \<lparr>tp_id = ''p1'', tp_user_id = ''bob'', tp_question = ''Lunch?'',
          tp_options = Some [''Pizza'', ''Sushi''], tp_created_at = 0\<rparr> = Some [''Pizza'', ''Sushi'']"
    by simp
  have h9: "tv_option_index ?v < int (length [''Pizza'', ''Sushi''])" by simp
  have h10: "votes_select_fault alice_env = None" by (simp add: alice_env_def)
  have "submitVote alice_env ''p1'' (RawString ''0'') voted_store =
     (Some ''You have already voted in this poll.'', voted_store)"
    using submitVote_same_option_again
          [OF reachable_voted_store h2 h3 _ _ h6 select_poll_voted_store h8 h9 h10]
    by simp
  then show ?thesis using reachable_voted_store h3 h6 by simp
qed

theorem submitVote_same_option_again_is_error:
  "submitVote alice_env ''p1'' (RawNumber (Integer 0)) lunch_store = (None, voted_store) \<and>
   submitVote alice_env ''p1'' (RawNumber (Integer 0)) voted_store =
     (Some ''You have already voted in this poll.'', voted_store)"
  by (simp add: ts_defs)

subsection \<open>The insert that loses a race\<close>

lemma unique_violation_nonempty: "unique_violation \<noteq> []"
  by (simp add: unique_violation_def)

lemma not_duplicate_or_unique_Nil: "\<not> duplicate_or_unique []"
  by (simp add: duplicate_or_unique_def)

lemma submitVote_insert_failed:
  assumes "insert_vote e \<lparr>tv_poll_id = pollId, tv_user_id = fst checked,
              tv_option_index = snd checked, tv_created_at = now e\<rparr> s = Inl m"
    and "duplicate_or_unique m"
  shows "submitVote_insert e pollId checked s =
           (Some ''You have already voted in this poll.'', s)"
proof -
  have "m \<noteq> []" using assms(2) not_duplicate_or_unique_Nil by auto
  then show ?thesis using assms by (simp add: submitVote_insert_def)
qed

lemma insert_vote_unique_violation:
  assumes "votes_insert_fault e = None" and "0 \<le> tv_option_index r"
    and "v \<in> set (votes s)" and "tv_poll_id v = tv_poll_id r" and "tv_user_id v = tv_user_id r"
  shows "insert_vote e r s = Inl unique_violation"
proof -
  have "filter (\<lambda>v. tv_poll_id v = tv_poll_id r \<and> tv_user_id v = tv_user_id r) (votes s) \<noteq> []"
    using assms(3-5) by (auto simp: filter_empty_conv)
  then show ?thesis using assms(1,2) by (simp add: insert_vote_def)
qed

text \<open>
  C2, as the code has it. A call passes the duplicate check on the store \<open>s\<close>; by the
  time of its insert the store is \<open>s'\<close>, in which a concurrent call has committed a vote
  of the same voter on the same poll. Then the insert fails on the unique index with
  PostgreSQL's uniqueness violation, and the action returns the error
  \<open>You have already voted in this poll.\<close> (not a success, and not the raw storage
  message); the store stays \<open>s'\<close>.
\<close>

theorem submitVote_insert_lost_race:
  assumes "submitVote_check e pollId rawOptionIndex s = Inr checked"
    and "votes_insert_fault e = None"
    and "v \<in> set (votes s')" and "tv_poll_id v = pollId" and "tv_user_id v = fst checked"
  shows "insert_vote e \<lparr>tv_poll_id = pollId, tv_user_id = fst checked,
              tv_option_index = snd checked, tv_created_at = now e\<rparr> s' = Inl unique_violation \<and>
         submitVote_insert e pollId checked s' =
           (Some ''You have already voted in this poll.'', s')"
proof -
  have "0 \<le> snd checked" using submitVote_check_passed [OF assms(1)] by simp
  then have "insert_vote e \<lparr>tv_poll_id = pollId, tv_user_id = fst checked,
              tv_option_index = snd checked, tv_created_at = now e\<rparr> s' = Inl unique_violation"
    using assms(2-5) by (intro insert_vote_unique_violation [where v = v]) simp_all
  then show ?thesis using submitVote_insert_failed unique_violation_matches by simp
qed

theorem submitVote_insert_lost_race_witness:
  "submitVote_check alice_env ''p1'' (RawString ''0'') lunch_store = Inr (''alice'', 0) \<and>
   snd (submitVote alice_env ''p1'' (RawNumber (Integer 0)) lunch_store) = voted_store \<and>
   insert_vote alice_env \<lparr>tv_poll_id = ''p1'', tv_user_id = ''alice'',
       tv_option_index = 0, tv_created_at = 100\<rparr> voted_store = Inl unique_violation \<and>
   submitVote_insert alice_env ''p1'' (''alice'', 0) voted_store =
     (Some ''You have already voted in this poll.'', voted_store)"
proof -
  let ?v = "\<lparr>tv_poll_id = ''p1'', tv_user_id = ''alice'', tv_option_index = 0,
             tv_created_at = 100\<rparr>"
  have h2: "votes_insert_fault alice_env = None" by (simp add: alice_env_def)
  have h3: "?v \<in> set (votes voted_store)" by (simp add: voted_store_def)
  have h4: "tv_poll_id ?v = ''p1''" by simp
  have h5: "tv_user_id ?v = fst (''alice'', 0::int)" by simp
  show ?thesis
    using submitVote_insert_lost_race [OF check_passes_before_vote h2 h3 h4 h5]
      check_passes_before_vote first_vote
    by (simp add: alice_env_def)
qed

theorem submitVote_insert_lost_race_is_error:
  "submitVote_check alice_env ''p1'' (RawString ''0'') lunch_store = Inr (''alice'', 0) \<and>
   fst (submitVote_insert alice_env ''p1'' (''alice'', 0) voted_store) =
     Some ''You have already voted in this poll.''"
  by (simp add: ts_defs parse_defs unique_violation_matches unique_violation_nonempty)

subsection \<open>Validation failures\<close>

text \<open>
  C8. When the caller is not signed in, or no poll has the id, or the option index is not
  an integer, or it is negative or beyond the options of the poll, \<open>submitVote\<close> returns an
  error and the store (polls, votes, revalidated paths) is exactly as before.
\<close>

theorem submitVote_validation_failure_no_mutation:
  assumes "auth_getUser e = Inr None
     \<or> (\<exists>m. auth_getUser e = Inl m)
     \<or> filter (\<lambda>p. tp_id p = pollId) (polls s) = []
     \<or> coerce rawOptionIndex = NonInteger
     \<or> (\<exists>i. coerce rawOptionIndex = Integer i \<and>
           (\<forall>p\<in>set (polls s). tp_id p = pollId \<longrightarrow>
              (case tp_options p of None \<Rightarrow> True
               | Some opts \<Rightarrow> i < 0 \<or> int (length opts) \<le> i)))"
  shows "\<exists>err. submitVote e pollId rawOptionIndex s = (Some err, s)"
proof -
  have "\<exists>err. submitVote_check e pollId rawOptionIndex s = Inl err"
    using assms
    by (auto simp: submitVote_check_def select_poll_def single_def Let_def
        split: sum.splits option.splits number.splits list.splits
        dest!: filter_eq_singletonD)
  then show ?thesis by (auto simp: submitVote_def)
qed

theorem submitVote_validation_failure_no_mutation_witness:
  "coerce (RawString ''7'') = Integer 7 \<and>
   submitVote alice_env ''p1'' (RawString ''7'') lunch_store = (Some ''Invalid option.'', lunch_store) \<and>
   auth_getUser (alice_env\<lparr>auth_getUser := Inr None\<rparr>) = Inr None \<and>
   submitVote (alice_env\<lparr>auth_getUser := Inr None\<rparr>) ''p1'' (RawString ''0'') lunch_store =
     (Some ''You must be logged in to vote.'', lunch_store) \<and>
   filter (\<lambda>p. tp_id p = ''p9'') (polls lunch_store) = [] \<and>
   submitVote alice_env ''p9'' (RawString ''0'') lunch_store = (Some PGRST116, lunch_store)"
proof -
  have a: "coerce (RawString ''7'') = Integer 7" by (simp add: coerce_def parse_defs)
  have b: "\<forall>p\<in>set (polls lunch_store). tp_id p = ''p1'' \<longrightarrow>
              (case tp_options p of None \<Rightarrow> True
               | Some opts \<Rightarrow> (7::int) < 0 \<or> int (length opts) \<le> 7)"
    by (simp add: lunch_store_def)
  have c: "auth_getUser (alice_env\<lparr>auth_getUser := Inr None\<rparr>) = Inr None" by simp
  have d: "filter (\<lambda>p. tp_id p = ''p9'') (polls lunch_store) = []"
    by (simp add: lunch_store_def)
  have "\<exists>err. submitVote alice_env ''p1'' (RawString ''7'') lunch_store = (Some err, lunch_store)"
    using submitVote_validation_failure_no_mutation
      [where e = alice_env and pollId = "''p1''" and rawOptionIndex = "RawString ''7''"
         and s = lunch_store] a b by blast
  moreover have "\<exists>err. submitVote (alice_env\<lparr>auth_getUser := Inr None\<rparr>) ''p1'' (RawString ''0'')
      lunch_store = (Some err, lunch_store)"
    using submitVote_validation_failure_no_mutation
      [where e = "alice_env\<lparr>auth_getUser := Inr None\<rparr>" and pollId = "''p1''"
         and rawOptionIndex = "RawString ''0''" and s = lunch_store] c by blast
  moreover have "\<exists>err. submitVote alice_env ''p9'' (RawString ''0'') lunch_store =
      (Some err, lunch_store)"
    using submitVote_validation_failure_no_mutation
      [where e = alice_env and pollId = "''p9''" and rawOptionIndex = "RawString ''0''"
         and s = lunch_store] d by blast
  moreover have "fst (submitVote alice_env ''p1'' (RawString ''7'') lunch_store) =
      Some ''Invalid option.''"
    by (simp add: ts_defs parse_defs)
  moreover have "fst (submitVote (alice_env\<lparr>auth_getUser := Inr None\<rparr>) ''p1'' (RawString ''0'')
      lunch_store) = Some ''You must be logged in to vote.''"
    by (simp add: ts_defs parse_defs)
  moreover have "fst (submitVote alice_env ''p9'' (RawString ''0'') lunch_store) = Some PGRST116"
    by (simp add: ts_defs parse_defs)
  ultimately show ?thesis using a c d by auto
qed

subsection \<open>One vote per voter and poll\<close>

text \<open>
  C10, as the code has it. In every reachable store a voter has at most one vote row on a
  poll: a vote \<open>v\<close> of the voter on the poll is the only one. From then on every call of
  that voter on that poll, whatever the option, returns an error and leaves the store as
  it was; when the call gets as far as the duplicate check (the poll is read, the index
  is within its options, the check is answered) the error is
  \<open>You have already voted in this poll.\<close>, also for an option other than the one held.
  (A call that fails an earlier check returns that check's error: see the
  counterexample.)
\<close>

theorem submitVote_one_vote_per_poll:
  assumes "reachable s"
    and "auth_getUser e = Inr (Some voter)"
    and "v \<in> set (votes s)" and "tv_poll_id v = pollId" and "tv_user_id v = voter"
  shows "filter (\<lambda>x. tv_poll_id x = pollId \<and> tv_user_id x = voter) (votes s) = [v] \<and>
     (\<exists>err. submitVote e pollId rawOptionIndex s = (Some err, s)) \<and>
     (\<forall>i poll opts.
        coerce rawOptionIndex = Integer i \<and> select_poll e pollId s = Inr poll \<and>
        tp_options poll = Some opts \<and> 0 \<le> i \<and> i < int (length opts) \<and>
        votes_select_fault e = None \<longrightarrow>
        submitVote e pollId rawOptionIndex s =
          (Some ''You have already voted in this poll.'', s))"
proof -
  have held: "filter (\<lambda>x. tv_poll_id x = pollId \<and> tv_user_id x = voter) (votes s) = [v]"
    using reachable_invariant [OF assms(1)] assms(3-5)
    by (intro distinct_keys_filter_single) simp_all
  show ?thesis
    using held submitVote_holding [OF assms(2) held]
      submitVote_already_voted [OF assms(2) _ _ _ _ _ _ held]
    by blast
qed

theorem submitVote_one_vote_per_poll_witness:
  "reachable voted_store \<and>
   filter (\<lambda>x. tv_poll_id x = ''p1'' \<and> tv_user_id x = ''alice'') (votes voted_store) =
     [\<lparr>tv_poll_id = ''p1'', tv_user_id = ''alice'', tv_option_index = 0, tv_created_at = 100\<rparr>] \<and>
   coerce (RawString ''1'') = Integer 1 \<and>
   submitVote alice_env ''p1'' (RawString ''1'') voted_store =
     (Some ''You have already voted in this poll.'', voted_store)"
proof -
  let ?v = "\<lparr>tv_poll_id = ''p1'', tv_user_id = ''alice'', tv_option_index = 0,
             tv_created_at = 100\<rparr>"
  have h2: "auth_getUser alice_env = Inr (Some ''alice'')" by (simp add: alice_env_def)
  have h3: "?v \<in> set (votes voted_store)" by (simp add: voted_store_def)
  have h4: "tv_poll_id ?v = ''p1''" and h5: "tv_user_id ?v = ''alice''" by simp_all
  have c: "coerce (RawString ''1'') = Integer 1" by (simp add: coerce_def parse_defs)
  have f: "votes_select_fault alice_env = None" by (simp add: alice_env_def)
  note inst = submitVote_one_vote_per_poll
    [OF reachable_voted_store h2 h3 h4 h5, where rawOptionIndex = "RawString ''1''"]
  have "submitVote alice_env ''p1'' (RawString ''1'') voted_store =
     (Some ''You have already voted in this poll.'', voted_store)"
    using inst c select_poll_voted_store f by simp
  then show ?thesis using inst reachable_voted_store c by simp
qed

theorem submitVote_invalid_index_after_vote:
  "\<lparr>tv_poll_id = ''p1'', tv_user_id = ''alice'', tv_option_index = 0, tv_created_at = 100\<rparr>
     \<in> set (votes voted_store) \<and>
   auth_getUser alice_env = Inr (Some ''alice'') \<and>
   submitVote alice_env ''p1'' (RawString ''2'') voted_store =
     (Some ''Invalid option.'', voted_store)"
  by (simp add: ts_defs parse_defs)

section \<open>Properties of the database functions\<close>

subsection \<open>What \<open>record_vote\<close> keeps\<close>

lemma held_conv:
  "(filter (\<lambda>v. v_poll_id v = v_poll_id r \<and> v_voter_id v = v_voter_id r
                       \<and> v_option_id v = v_option_id r) vs \<noteq> []) =
   (vote_triple r \<in> vote_triple ` set vs)"
  by (induction vs) (auto simp: vote_triple_def)

lemma insert_into_votes_cases:
  "insert_into_votes c r db = Inr db' \<Longrightarrow>
     (db' = db \<and> c \<and> vote_triple r \<in> vote_triple ` set (db_votes db)) \<or>
     (db' = db\<lparr>db_votes := db_votes db @ [r]\<rparr>
        \<and> vote_triple r \<notin> vote_triple ` set (db_votes db)
        \<and> v_voter_id r \<in> set (db_profiles db))"
  unfolding insert_into_votes_def held_conv by (simp split: if_splits)

lemma record_vote_tables:
  "db_polls (snd (record_vote t p opt u db)) = db_polls db \<and>
   db_poll_options (snd (record_vote t p opt u db)) = db_poll_options db \<and>
   db_profiles (snd (record_vote t p opt u db)) = db_profiles db"
  by (auto simp: record_vote_def Let_def insert_into_votes_def
      split: option.splits sum.splits if_splits)

lemma record_vote_distinct:
  assumes "distinct (map vote_triple (db_votes db))"
  shows "distinct (map vote_triple (db_votes (snd (record_vote t p opt u db))))"
  using assms
  by (auto simp: record_vote_def Let_def distinct_map_filter image_iff
      split: option.splits sum.splits if_splits dest!: insert_into_votes_cases)

lemma record_vote_option_in_poll:
  assumes "\<forall>v\<in>set (db_votes db). option_in_poll (v_option_id v) (v_poll_id v) db"
  shows "\<forall>v\<in>set (db_votes (snd (record_vote t p opt u db))).
           option_in_poll (v_option_id v) (v_poll_id v) (snd (record_vote t p opt u db))"
  using assms
  by (auto simp: record_vote_def Let_def option_in_poll_def
      split: option.splits sum.splits if_splits dest!: insert_into_votes_cases)

lemma reachable_db_invariant:
  "reachable_db db \<Longrightarrow>
     distinct (map vote_triple (db_votes db)) \<and>
     distinct (map o_id (db_poll_options db)) \<and>
     (\<forall>v\<in>set (db_votes db). option_in_poll (v_option_id v) (v_poll_id v) db)"
proof (induction rule: reachable_db.induct)
  case (db_init db)
  then show ?case by simp
next
  case (db_call db t p opt u)
  then show ?case
    using record_vote_distinct [of db t p opt u] record_vote_option_in_poll [of db t p opt u]
      record_vote_tables [of t p opt u db]
    by simp
qed

lemma record_vote_preserves_pre:
  "select_into_poll_record p (snd (record_vote t p' opt u db)) = select_into_poll_record p db"
  "option_in_poll x p (snd (record_vote t p' opt u db)) = option_in_poll x p db"
  using record_vote_tables [of t p' opt u db]
  by (simp_all add: select_into_poll_record_def option_in_poll_def)

lemma reachable_lunch_db: "reachable_db (lunch_db st multiple expires)"
  by (rule reachable_db.db_init) (simp_all add: lunch_db_def)

lemma reachable_voted_db: "reachable_db voted_db"
proof -
  have "reachable_db (snd (record_vote 100 ''p1'' ''o1'' ''alice'' (lunch_db active True None)))"
    using reachable_lunch_db by (rule reachable_db.db_call)
  then show ?thesis by (simp add: first_record_vote)
qed

subsection \<open>The uniqueness constraint\<close>

text \<open>
  C9. No two rows of the vote ledger share their \<open>(poll, voter, option)\<close> triple, in any
  state reached from an empty ledger: for the server action in every interleaving of
  calls (where even the pair \<open>(poll, voter)\<close> is unique), and for \<open>record_vote\<close> under the
  constraint \<open>UNIQUE(poll_id, voter_id, option_id)\<close>.
\<close>

theorem vote_triples_unique:
  "(reachable s \<longrightarrow>
      distinct (map (\<lambda>v. (tv_poll_id v, tv_user_id v, tv_option_index v)) (votes s))) \<and>
   (reachable_db db \<longrightarrow>
      distinct (map (\<lambda>v. (v_poll_id v, v_voter_id v, v_option_id v)) (db_votes db)))"
proof -
  have "vote_triple = (\<lambda>v. (v_poll_id v, v_voter_id v, v_option_id v))"
    by (rule ext) (simp add: vote_triple_def)
  then show ?thesis
    using reachable_invariant [of s] distinct_key_triple [of "votes s"]
      reachable_db_invariant [of db]
    by auto
qed

theorem vote_triples_unique_witness:
  "reachable voted_store \<and>
   distinct (map (\<lambda>v. (tv_poll_id v, tv_user_id v, tv_option_index v)) (votes voted_store)) \<and>
   votes voted_store \<noteq> [] \<and>
   reachable_db voted_db \<and>
   distinct (map (\<lambda>v. (v_poll_id v, v_voter_id v, v_option_id v)) (db_votes voted_db)) \<and>
   db_votes voted_db \<noteq> []"
  using vote_triples_unique [where s = voted_store and db = voted_db]
    reachable_voted_store reachable_voted_db
  by (simp add: voted_store_def voted_db_def)

subsection \<open>The tally\<close>

text \<open>
  C6. \<open>get_poll_with_options\<close> returns no tally: for every poll and every database the
  call raises \<open>column reference "poll_id" is ambiguous\<close>, because the output column
  \<open>poll_id\<close> of \<open>RETURNS TABLE\<close> and the column \<open>poll_id\<close> of \<open>public.votes\<close> meet
  in the unqualified reference at line 198 (and again at line 204).
\<close>

theorem get_poll_with_options_raises:
  "get_poll_with_options poll_uuid db = Inl ''column reference \"poll_id\" is ambiguous''"
  by (simp add: get_poll_with_options_def votes_references_def votes_columns_def
      get_poll_with_options_variables_def ambiguous_column_def)

subsection \<open>\<open>record_vote\<close> on an accepted request\<close>

lemma record_vote_multiple:
  assumes "select_into_poll_record p db = Some poll"
    and "p_status poll = Some active"
    and "p_allow_multiple_votes poll = Some True"
    and "voter \<in> set (db_profiles db)"
    and "option_in_poll opt p db"
  shows "record_vote t p opt voter db =
     (Inr True,
      if opt \<in> v_option_id ` set (votes_of p voter db) then db
      else db\<lparr>db_votes := db_votes db @
             [\<lparr>v_poll_id = p, v_option_id = opt, v_voter_id = voter, v_created_at = Some t\<rparr>]\<rparr>)"
proof -
  let ?r = "\<lparr>v_poll_id = p, v_option_id = opt, v_voter_id = voter, v_created_at = Some t\<rparr>"
  have held: "(vote_triple ?r \<in> vote_triple ` set (db_votes db)) =
              (opt \<in> v_option_id ` set (votes_of p voter db))"
    by (auto simp: vote_triple_def votes_of_def image_iff)
  have "insert_into_votes True ?r db =
          Inr (if opt \<in> v_option_id ` set (votes_of p voter db) then db
               else db\<lparr>db_votes := db_votes db @ [?r]\<rparr>)"
    unfolding insert_into_votes_def held_conv held using assms(4) by simp
  then show ?thesis
    using assms by (simp add: record_vote_def Let_def)
qed

lemma record_vote_single:
  assumes "select_into_poll_record p db = Some poll"
    and "p_status poll = Some active"
    and "p_allow_multiple_votes poll \<noteq> Some True"
    and "voter \<in> set (db_profiles db)"
    and "option_in_poll opt p db"
  shows "record_vote t p opt voter db =
     (Inr True,
      db\<lparr>db_votes := filter (\<lambda>v. \<not> (v_poll_id v = p \<and> v_voter_id v = voter)) (db_votes db) @
             [\<lparr>v_poll_id = p, v_option_id = opt, v_voter_id = voter, v_created_at = Some t\<rparr>]\<rparr>)"
  using assms
  by (simp add: record_vote_def Let_def insert_into_votes_def option_in_poll_def)

lemma record_votes_multiple:
  assumes "select_into_poll_record p db = Some poll"
    and "p_status poll = Some active"
    and "p_allow_multiple_votes poll = Some True"
    and "voter \<in> set (db_profiles db)"
    and "\<forall>req\<in>set reqs. option_in_poll (snd req) p db"
  shows "fst (record_votes p voter reqs db) = map (\<lambda>req. Inr True) reqs \<and>
         v_option_id ` set (votes_of p voter (snd (record_votes p voter reqs db))) =
           v_option_id ` set (votes_of p voter db) \<union> snd ` set reqs \<and>
         (distinct (map v_option_id (votes_of p voter db)) \<longrightarrow>
          distinct (map v_option_id (votes_of p voter (snd (record_votes p voter reqs db)))))"
  using assms
proof (induction reqs arbitrary: db)
  case Nil
  then show ?case by simp
next
  case (Cons req reqs)
  let ?db' = "snd (record_vote (fst req) p (snd req) voter db)"
  have step: "record_vote (fst req) p (snd req) voter db =
     (Inr True,
      if snd req \<in> v_option_id ` set (votes_of p voter db) then db
      else db\<lparr>db_votes := db_votes db @
             [\<lparr>v_poll_id = p, v_option_id = snd req, v_voter_id = voter,
               v_created_at = Some (fst req)\<rparr>]\<rparr>)"
    using Cons.prems by (intro record_vote_multiple) auto
  have pre: "select_into_poll_record p ?db' = Some poll" "voter \<in> set (db_profiles ?db')"
    "\<forall>r\<in>set reqs. option_in_poll (snd r) p ?db'"
    using Cons.prems record_vote_tables [of "fst req" p "snd req" voter db]
    by (simp_all add: record_vote_preserves_pre)
  note IH = Cons.IH [OF pre(1) Cons.prems(2,3) pre(2,3)]
  have rows: "votes_of p voter ?db' =
      (if snd req \<in> v_option_id ` set (votes_of p voter db) then votes_of p voter db
       else votes_of p voter db @
         [\<lparr>v_poll_id = p, v_option_id = snd req, v_voter_id = voter,
           v_created_at = Some (fst req)\<rparr>])"
    unfolding step by (simp add: votes_of_def)
  have opts: "v_option_id ` set (votes_of p voter ?db') =
              insert (snd req) (v_option_id ` set (votes_of p voter db))"
    unfolding rows by auto
  have dist: "distinct (map v_option_id (votes_of p voter db)) \<Longrightarrow>
              distinct (map v_option_id (votes_of p voter ?db'))"
    unfolding rows by auto
  show ?case
    using IH opts dist step by (auto simp: split_beta Let_def)
qed

lemma record_votes_single:
  assumes "select_into_poll_record p db = Some poll"
    and "p_status poll = Some active"
    and "p_allow_multiple_votes poll \<noteq> Some True"
    and "voter \<in> set (db_profiles db)"
    and "\<forall>req\<in>set reqs. option_in_poll (snd req) p db"
    and "reqs \<noteq> []"
  shows "fst (record_votes p voter reqs db) = map (\<lambda>req. Inr True) reqs \<and>
         votes_of p voter (snd (record_votes p voter reqs db)) =
           [\<lparr>v_poll_id = p, v_option_id = snd (last reqs), v_voter_id = voter,
             v_created_at = Some (fst (last reqs))\<rparr>]"
  using assms
proof (induction reqs arbitrary: db)
  case Nil
  then show ?case by simp
next
  case (Cons req reqs)
  let ?db' = "snd (record_vote (fst req) p (snd req) voter db)"
  have step: "record_vote (fst req) p (snd req) voter db =
     (Inr True,
      db\<lparr>db_votes := filter (\<lambda>v. \<not> (v_poll_id v = p \<and> v_voter_id v = voter)) (db_votes db) @
             [\<lparr>v_poll_id = p, v_option_id = snd req, v_voter_id = voter,
               v_created_at = Some (fst req)\<rparr>]\<rparr>)"
    using Cons.prems by (intro record_vote_single) auto
  have pre: "select_into_poll_record p ?db' = Some poll" "voter \<in> set (db_profiles ?db')"
    "\<forall>r\<in>set reqs. option_in_poll (snd r) p ?db'"
    using Cons.prems record_vote_tables [of "fst req" p "snd req" voter db]
    by (simp_all add: record_vote_preserves_pre)
  show ?case
  proof (cases "reqs = []")
    case True
    then show ?thesis using step by (simp add: votes_of_def)
  next
    case False
    from Cons.IH [OF pre(1) Cons.prems(2,3) pre(2,3) False] False step
    show ?thesis by (simp add: split_beta Let_def)
  qed
qed

lemma lunch_options:
  "\<forall>req\<in>set [(1, ''o1''), (2, ''o2''), (3::int, ''o1'')].
      option_in_poll (snd req) ''p1'' (lunch_db st multiple expires)"
  by (simp add: option_in_poll_def lunch_db_def)

text \<open>
  C3, as the code has it. On an active single-choice poll, after any non-empty sequence
  of \<open>record_vote\<close> calls by one voter (who has a profile) for options of the poll, every
  call has returned \<open>TRUE\<close> and the voter holds exactly one vote row on the poll: the one
  for the option of the last call, made at the time of that call.
\<close>

theorem record_votes_single_choice:
  assumes "select_into_poll_record poll_uuid db = Some poll"
    and "p_status poll = Some active"
    and "p_allow_multiple_votes poll \<noteq> Some True"
    and "voter_uuid \<in> set (db_profiles db)"
    and "\<forall>req\<in>set reqs. option_in_poll (snd req) poll_uuid db"
    and "reqs \<noteq> []"
  shows "fst (record_votes poll_uuid voter_uuid reqs db) = map (\<lambda>req. Inr True) reqs \<and>
         votes_of poll_uuid voter_uuid (snd (record_votes poll_uuid voter_uuid reqs db)) =
           [\<lparr>v_poll_id = poll_uuid, v_option_id = snd (last reqs), v_voter_id = voter_uuid,
             v_created_at = Some (fst (last reqs))\<rparr>]"
  using assms by (rule record_votes_single)

theorem record_votes_single_choice_witness:
  "fst (record_votes ''p1'' ''alice'' [(1, ''o1''), (2, ''o2''), (3, ''o1'')]
          (lunch_db active False None)) = [Inr True, Inr True, Inr True] \<and>
   votes_of ''p1'' ''alice''
     (snd (record_votes ''p1'' ''alice'' [(1, ''o1''), (2, ''o2''), (3, ''o1'')]
             (lunch_db active False None))) =
     [\<lparr>v_poll_id = ''p1'', v_option_id = ''o1'', v_voter_id = ''alice'',
       v_created_at = Some 3\<rparr>]"
proof -
  have h4: "''alice'' \<in> set (db_profiles (lunch_db active False None))"
    by (simp add: lunch_db_def)
  show ?thesis
    using record_votes_single_choice [OF select_lunch_poll _ _ h4 lunch_options]
    by simp
qed

theorem submitVote_keeps_first_vote:
  "votes (snd (submitVote alice_env ''p1'' (RawNumber (Integer 1))
      (snd (submitVote alice_env ''p1'' (RawNumber (Integer 0)) lunch_store)))) =
   [\<lparr>tv_poll_id = ''p1'', tv_user_id = ''alice'', tv_option_index = 0, tv_created_at = 100\<rparr>]"
  by (simp add: ts_defs)

text \<open>
  C5, as the code has it. On an active multiple-choice poll, after any sequence of
  \<open>record_vote\<close> calls by one voter (who has a profile and starts with no vote on the
  poll) for options of the poll, every call has returned \<open>TRUE\<close>, the options of the
  voter's vote rows on the poll are exactly the options requested, and no option has two
  rows. (A request that \<open>record_vote\<close> refuses adds no row: see the counterexample.)
\<close>

theorem record_votes_multiple_choice:
  assumes "select_into_poll_record poll_uuid db = Some poll"
    and "p_status poll = Some active"
    and "p_allow_multiple_votes poll = Some True"
    and "voter_uuid \<in> set (db_profiles db)"
    and "\<forall>req\<in>set reqs. option_in_poll (snd req) poll_uuid db"
    and "votes_of poll_uuid voter_uuid db = []"
  shows "fst (record_votes poll_uuid voter_uuid reqs db) = map (\<lambda>req. Inr True) reqs \<and>
         v_option_id ` set (votes_of poll_uuid voter_uuid
                              (snd (record_votes poll_uuid voter_uuid reqs db))) =
           snd ` set reqs \<and>
         distinct (map v_option_id (votes_of poll_uuid voter_uuid
                                      (snd (record_votes poll_uuid voter_uuid reqs db))))"
  using record_votes_multiple [OF assms(1-5)] assms(6) by simp

theorem record_votes_multiple_choice_witness:
  "fst (record_votes ''p1'' ''alice'' [(1, ''o1''), (2, ''o2''), (3, ''o1'')]
          (lunch_db active True None)) = [Inr True, Inr True, Inr True] \<and>
   v_option_id ` set (votes_of ''p1'' ''alice''
     (snd (record_votes ''p1'' ''alice'' [(1, ''o1''), (2, ''o2''), (3, ''o1'')]
             (lunch_db active True None)))) = {''o1'', ''o2''} \<and>
   distinct (map v_option_id (votes_of ''p1'' ''alice''
     (snd (record_votes ''p1'' ''alice'' [(1, ''o1''), (2, ''o2''), (3, ''o1'')]
             (lunch_db active True None)))))"
proof -
  have h4: "''alice'' \<in> set (db_profiles (lunch_db active True None))"
    by (simp add: lunch_db_def)
  have h6: "votes_of ''p1'' ''alice'' (lunch_db active True None) = []"
    by (simp add: votes_of_def lunch_db_def)
  show ?thesis
    using record_votes_multiple_choice [OF select_lunch_poll _ _ h4 lunch_options h6]
    by auto
qed

theorem record_votes_closed_poll_adds_nothing:
  "fst (record_votes ''p1'' ''alice'' [(1, ''o1'')] (lunch_db closed True None)) =
     [Inl (apostrophes ''Poll is not active'')] \<and>
   v_option_id ` set (votes_of ''p1'' ''alice''
     (snd (record_votes ''p1'' ''alice'' [(1, ''o1'')] (lunch_db closed True None)))) = {} \<and>
   snd ` set [(1::int, ''o1'')] = {''o1''}"
  by (simp add: sql_defs votes_of_def)

subsection \<open>Rejected requests\<close>

text \<open>
  C4, as the code has it. \<open>record_vote\<close> on a poll whose status is \<open>closed\<close> or \<open>draft\<close>
  raises the message \<open>'Poll is not active'\<close> (with its apostrophes), whoever votes and
  for whatever option, and the database is as before. (\<open>expires_at\<close> is not read: see the
  counterexample.)
\<close>

theorem record_vote_poll_not_active:
  assumes "select_into_poll_record poll_uuid db = Some poll"
    and "p_status poll = Some closed \<or> p_status poll = Some draft"
  shows "record_vote now_t poll_uuid option_uuid voter_uuid db =
           (Inl (apostrophes ''Poll is not active''), db)"
  using assms by (auto simp: record_vote_def)

theorem record_vote_poll_not_active_witness:
  "option_in_poll ''o1'' ''p1'' (lunch_db closed False None) \<and>
   ''alice'' \<in> set (db_profiles (lunch_db closed False None)) \<and>
   apostrophes ''Poll is not active'' =
     [CHR 0x27] @ ''Poll is not active'' @ [CHR 0x27] \<and>
   record_vote 100 ''p1'' ''o1'' ''alice'' (lunch_db closed False None) =
     (Inl (apostrophes ''Poll is not active''), lunch_db closed False None) \<and>
   record_vote 100 ''p1'' ''o1'' ''alice'' (lunch_db draft True None) =
     (Inl (apostrophes ''Poll is not active''), lunch_db draft True None)"
  using record_vote_poll_not_active [OF select_lunch_poll, where st1 = closed]
    record_vote_poll_not_active [OF select_lunch_poll, where st1 = draft]
  by (simp add: option_in_poll_def lunch_db_def apostrophes_def)

theorem record_vote_ignores_expires_at:
  "p_expires_at (the (select_into_poll_record ''p1'' (lunch_db active False (Some 50)))) = Some 50 \<and>
   record_vote 100 ''p1'' ''o1'' ''alice'' (lunch_db active False (Some 50)) =
     (Inr True,
      (lunch_db active False (Some 50))
        \<lparr>db_votes := [\<lparr>v_poll_id = ''p1'', v_option_id = ''o1'', v_voter_id = ''alice'',
                       v_created_at = Some 100\<rparr>]\<rparr>)"
  by (simp add: sql_defs)

lemma submitVote_invalid_option:
  assumes "auth_getUser e = Inr (Some u)"
    and "coerce raw = NonInteger \<or>
         (\<exists>i poll. coerce raw = Integer i \<and> select_poll e pollId s = Inr poll \<and>
            (case tp_options poll of None \<Rightarrow> True
             | Some opts \<Rightarrow> i < 0 \<or> int (length opts) \<le> i))"
  shows "submitVote e pollId raw s = (Some ''Invalid option.'', s)"
  using assms by (auto simp: submitVote_def submitVote_check_def split: option.splits)

lemma record_vote_invalid_option:
  assumes "select_into_poll_record p db = Some poll"
    and "p_status poll = None \<or> p_status poll = Some active"
    and "\<not> option_in_poll opt p db"
  shows "record_vote t p opt voter db =
           (Inl (apostrophes ''Invalid option for this poll''), db)"
  using assms by (auto simp: record_vote_def)

text \<open>
  What the server action validates is the coerced index: a string is read by
  \<open>parseInt(_, 10)\<close>, which takes the leading integer and drops the rest, so \<open>"1.9"\<close> is
  the index \<open>1\<close> and the vote for option \<open>1\<close> is accepted.
\<close>

lemma submitVote_reads_leading_integer:
  "coerce (RawString ''1.9'') = Integer 1 \<and>
   submitVote alice_env ''p1'' (RawString ''1.9'') lunch_store =
     (None,
      lunch_store
        \<lparr>votes := [\<lparr>tv_poll_id = ''p1'', tv_user_id = ''alice'', tv_option_index = 1,
                     tv_created_at = 100\<rparr>],
         revalidated := [''/polls/p1'']\<rparr>)"
  by (simp add: ts_defs parse_defs)

text \<open>
  C7, as the code has it. The server action, for a signed-in caller: when the coerced
  option index is not an integer (a number that is not an integer, or a string in which
  \<open>parseInt\<close> finds no leading integer, or one too large for a double), or is negative
  or not below the number of options of the poll read, the call gives the error
  \<open>Invalid option.\<close> and leaves the store as it was. \<open>record_vote\<close>, on a poll that
  passes the status test (status \<open>active\<close> or null), in either mode: an option that is
  not an option of the poll raises the message \<open>'Invalid option for this poll'\<close> (with
  its apostrophes) and leaves the database as it was. (On a poll that is not active the
  status test comes first: see the counterexample.)
\<close>

theorem invalid_option_rejected:
  "(auth_getUser e = Inr (Some user) \<and>
    (coerce rawOptionIndex = NonInteger \<or>
     (\<exists>i tpoll. coerce rawOptionIndex = Integer i \<and> select_poll e pollId s = Inr tpoll \<and>
        (case tp_options tpoll of None \<Rightarrow> True
         | Some opts \<Rightarrow> i < 0 \<or> int (length opts) \<le> i)))
    \<longrightarrow> submitVote e pollId rawOptionIndex s = (Some ''Invalid option.'', s)) \<and>
   (select_into_poll_record poll_uuid db = Some poll \<and>
    (p_status poll = None \<or> p_status poll = Some active) \<and>
    \<not> option_in_poll option_uuid poll_uuid db
    \<longrightarrow> record_vote now_t poll_uuid option_uuid voter_uuid db =
          (Inl (apostrophes ''Invalid option for this poll''), db))"
  using submitVote_invalid_option [of e user rawOptionIndex pollId s]
    record_vote_invalid_option [of poll_uuid db poll option_uuid now_t voter_uuid]
  by blast

theorem invalid_option_rejected_witness:
  "coerce (RawString ''2'') = Integer 2 \<and>
   submitVote alice_env ''p1'' (RawString ''2'') voted_store = (Some ''Invalid option.'', voted_store) \<and>
   \<not> option_in_poll ''x1'' ''p1'' (lunch_db active True None) \<and>
   apostrophes ''Invalid option for this poll'' =
     [CHR 0x27] @ ''Invalid option for this poll'' @ [CHR 0x27] \<and>
   record_vote 100 ''p1'' ''x1'' ''alice'' (lunch_db active True None) =
     (Inl (apostrophes ''Invalid option for this poll''), lunch_db active True None)"
proof -
  have a: "auth_getUser alice_env = Inr (Some ''alice'')" by (simp add: alice_env_def)
  have b: "coerce (RawString ''2'') = Integer 2" by (simp add: coerce_def parse_defs)
  have c: "\<not> option_in_poll ''x1'' ''p1'' (lunch_db active True None)"
    by (simp add: option_in_poll_def lunch_db_def)
  note inst = invalid_option_rejected
    [where e = alice_env and user = "''alice''" and rawOptionIndex = "RawString ''2''"
       and pollId = "''p1''" and s = voted_store and poll_uuid = "''p1''"
       and db = "lunch_db active True None" and option_uuid = "''x1''"
       and now_t = 100 and voter_uuid = "''alice''"
       and poll = "the (select_into_poll_record ''p1'' (lunch_db active True None))"]
  have "submitVote alice_env ''p1'' (RawString ''2'') voted_store =
          (Some ''Invalid option.'', voted_store)"
    using inst a b select_poll_voted_store by simp
  moreover have "record_vote 100 ''p1'' ''x1'' ''alice'' (lunch_db active True None) =
     (Inl (apostrophes ''Invalid option for this poll''), lunch_db active True None)"
    using inst c by (simp add: select_lunch_poll)
  ultimately show ?thesis using b c by (simp add: apostrophes_def)
qed

theorem record_vote_status_before_option:
  "\<not> option_in_poll ''x1'' ''p1'' (lunch_db closed False None) \<and>
   record_vote 100 ''p1'' ''x1'' ''alice'' (lunch_db closed False None) =
     (Inl ([CHR 0x27] @ ''Poll is not active'' @ [CHR 0x27]), lunch_db closed False None)"
  by (simp add: sql_defs apostrophes_def)

end
